theory Spec2Isabelle
  imports Main "HOL-Library.AList" "HOL-Library.Multiset"
begin

section \<open>Time\<close>

text \<open>
  A Go \<^verbatim>\<open>time.Time\<close> is modelled by the instant it denotes: the number of nanoseconds
  since the Unix epoch, as an unbounded integer (the location and the monotonic reading
  play no part in the code below, and the 64-bit range of seconds is not modelled).
  A \<^verbatim>\<open>time.Duration\<close> is a number of nanoseconds.
\<close>

type_synonym time = int
type_synonym Duration = int

definition UTC :: "time \<Rightarrow> time" where
  "UTC t = t"

definition Add :: "time \<Rightarrow> Duration \<Rightarrow> time" where
  "Add t d = t + d"

text \<open>\<^verbatim>\<open>t.Unix()\<close>: whole seconds since the epoch, rounded down.\<close>

definition Unix :: "time \<Rightarrow> int" where
  "Unix t = t div 1000000000"

text \<open>\<^verbatim>\<open>time.Unix(sec, nsec)\<close>.\<close>

definition time_Unix :: "int \<Rightarrow> int \<Rightarrow> time" where
  "time_Unix sec nsec = sec * 1000000000 + nsec"

section \<open>Data model\<close>

text \<open>
  The declarations of package \<^verbatim>\<open>deepalert\<close> are not among the sources; each type has
  the fields that the repository service reads and writes.

  \<^verbatim>\<open>deepalert.Attribute\<close>. \<^verbatim>\<open>Type\<close> is an \<^verbatim>\<open>AttrType\<close>, a string, and \<^verbatim>\<open>Context\<close> a
  slice of strings. \<^verbatim>\<open>Timestamp\<close> is a \<^verbatim>\<open>*time.Time\<close>: \<open>None\<close> is the nil pointer.
\<close>

record Attribute =
  Type :: string
  Key :: string
  Value :: string
  Context :: "string list"
  Timestamp :: "time option"

text \<open>
  \<^verbatim>\<open>deepalert.ContentType\<close> is a string type with three declared constants; a value that is
  none of them is \<open>ContentOther\<close>.
\<close>

datatype ContentType = ContentHost | ContentUser | ContentBinary | ContentOther string

text \<open>
  The dynamic value of the \<^verbatim>\<open>Content interface{}\<close> field of a finding: a pointer to one of
  the three report content structs (whose declarations are type parameters here), or a value
  of any other dynamic type, nil included.
\<close>

datatype ('h, 'u, 'b) Content =
    HostPtr 'h
  | UserPtr 'u
  | BinaryPtr 'b
  | OtherValue string

text \<open>\<^verbatim>\<open>deepalert.InspectReport\<close>, a finding.\<close>

record ('h, 'u, 'b) InspectReport =
  ReportID :: string
  Attribute :: Attribute
  Type :: ContentType
  Content :: "('h, 'u, 'b) Content"

text \<open>
  \<^verbatim>\<open>deepalert.ReportSection\<close>. \<^verbatim>\<open>OriginAttr\<close> is a \<^verbatim>\<open>*Attribute\<close>; the three
  collections are slices of pointers, in the order of the appends.
\<close>

record ('h, 'u, 'b) ReportSection =
  OriginAttr :: "Attribute option"
  Hosts :: "'h list"
  Users :: "'u list"
  Binaries :: "'b list"

text \<open>
  Errors. \<open>Ext\<close> is an error value handed over by a collaborator (the repository, the
  JSON decoder); \<open>New\<close> and \<open>Wrap\<close> are \<^verbatim>\<open>errors.New\<close> and \<^verbatim>\<open>errors.Wrap\<close> of the
  internal errors package.
\<close>

datatype 'e error = Ext 'e | New string | Wrap "'e error" string

section \<open>Section assembly\<close>

text \<open>
  The body of the loop of \<^verbatim>\<open>remapSection\<close>. The Go map \<^verbatim>\<open>sections\<close> from attribute hash
  to section pointer is an association list with one entry per key; \<open>Hash\<close> is
  \<^verbatim>\<open>Attribute.Hash\<close>, a parameter.
\<close>

definition remapStep ::
  "(Attribute \<Rightarrow> string) \<Rightarrow> (string \<times> ('h, 'u, 'b) ReportSection) list \<Rightarrow>
   ('h, 'u, 'b) InspectReport \<Rightarrow> 'e error + (string \<times> ('h, 'u, 'b) ReportSection) list" where
  "remapStep Hash sections ir =
     (let hv = Hash (Attribute ir);
          (section, sections1) =
            (case map_of sections hv of
               Some sec \<Rightarrow> (sec, sections)
             | None \<Rightarrow>
                 (let sec = \<lparr>OriginAttr = Some (Attribute ir), Hosts = [], Users = [], Binaries = []\<rparr>
                  in (sec, AList.update hv sec sections)))
      in case InspectReport.Type ir of
           ContentHost \<Rightarrow>
             (case Content ir of
                HostPtr c \<Rightarrow> Inr (AList.update hv (section\<lparr>Hosts := Hosts section @ [c]\<rparr>) sections1)
              | _ \<Rightarrow> Inl (New ''Can not cast content to deepalert.ReportHost''))
         | ContentUser \<Rightarrow>
             (case Content ir of
                UserPtr c \<Rightarrow> Inr (AList.update hv (section\<lparr>Users := Users section @ [c]\<rparr>) sections1)
              | _ \<Rightarrow> Inl (New ''Can not cast content to deepalert.ReportUser''))
         | ContentBinary \<Rightarrow>
             (case Content ir of
                BinaryPtr c \<Rightarrow> Inr (AList.update hv (section\<lparr>Binaries := Binaries section @ [c]\<rparr>) sections1)
              | _ \<Rightarrow> Inl (New ''Can not cast content to deepalert.ReportHost''))
         | ContentOther _ \<Rightarrow> Inr sections1)"

fun remapLoop ::
  "(Attribute \<Rightarrow> string) \<Rightarrow> (string \<times> ('h, 'u, 'b) ReportSection) list \<Rightarrow>
   ('h, 'u, 'b) InspectReport list \<Rightarrow> 'e error + (string \<times> ('h, 'u, 'b) ReportSection) list" where
  "remapLoop Hash sections [] = Inr sections"
| "remapLoop Hash sections (ir # irs) =
     (case remapStep Hash sections ir of
        Inl e \<Rightarrow> Inl e
      | Inr sections' \<Rightarrow> remapLoop Hash sections' irs)"

text \<open>
  \<^verbatim>\<open>remapSection\<close>. The final loop ranges over the Go map, whose iteration order is
  unspecified, so the returned slice is modelled by the multiset of its elements.
\<close>

definition remapSection ::
  "(Attribute \<Rightarrow> string) \<Rightarrow> ('h, 'u, 'b) InspectReport list \<Rightarrow>
   'e error + ('h, 'u, 'b) ReportSection multiset" where
  "remapSection Hash inspectReports =
     (case remapLoop Hash [] inspectReports of
        Inl e \<Rightarrow> Inl e
      | Inr sections \<Rightarrow> Inr (mset (map snd sections)))"

section \<open>Stored records and the repository interface\<close>

text \<open>
  \<^verbatim>\<open>models.RecordBase\<close> and the records that embed it (package \<^verbatim>\<open>models\<close> is not among
  the sources either), with the fields the service uses. \<^verbatim>\<open>ExpiresAt\<close> and
  \<^verbatim>\<open>CreatedAt\<close> are Unix seconds.
\<close>

record RecordBase =
  PKey :: string
  SKey :: string
  ExpiresAt :: int
  CreatedAt :: int

record AlertEntry = RecordBase +
  ReportID :: string

record AttributeCache = RecordBase +
  Timestamp :: time
  AttrKey :: string
  AttrType :: string
  AttrValue :: string
  AttrContext :: "string list"

text \<open>
  \<^verbatim>\<open>adaptor.Repository\<close> is an interface: the service works with any implementation of it.
  An implementation is a record of operations over its own state \<open>'s\<close> with its own error
  values \<open>'e\<close>; a put returns \<open>None\<close> for a nil error.
\<close>

record ('s, 'e) Repository =
  repoPutAlertEntry :: "AlertEntry \<Rightarrow> time \<Rightarrow> 's \<Rightarrow> 'e option \<times> 's"
  repoGetAlertEntry :: "string \<Rightarrow> string \<Rightarrow> 's \<Rightarrow> 'e + AlertEntry"
  repoPutAttributeCache :: "AttributeCache \<Rightarrow> time \<Rightarrow> 's \<Rightarrow> 'e option \<times> 's"
  repoGetAttributeCaches :: "string \<Rightarrow> 's \<Rightarrow> 'e + AttributeCache list"
  repoIsConditionalCheckErr :: "'e \<Rightarrow> bool"

record ('s, 'e) RepositoryService =
  repo :: "('s, 'e) Repository"
  ttl :: Duration

text \<open>
  Modelled from the spec: the declaration of \<^verbatim>\<open>deepalert.Report\<close> is not among the
  sources. A report has the fields of the spec's data model, of which \<^verbatim>\<open>TakeReport\<close>
  sets \<open>ID\<close>, \<open>Status\<close> and \<open>CreatedAt\<close>; a slice left out of a Go struct literal is
  nil, the empty list. \<open>'a\<close> is the alert type and \<open>'c\<close> the section type.
\<close>

datatype ReportStatus = StatusNew | StatusMore

record ('a, 'c) Report =
  ID :: string
  Status :: ReportStatus
  CreatedAt :: time
  Alerts :: "'a list"
  Sections :: "'c list"

section \<open>Report assignment\<close>

text \<open>
  The \<^verbatim>\<open>models.AlertEntry\<close> literal of \<^verbatim>\<open>TakeReport\<close>. \<open>AlertID\<close> is the method
  \<^verbatim>\<open>Alert.AlertID\<close> (a parameter, as is the alert type), and \<open>newReportID\<close> is the value
  that the call of \<^verbatim>\<open>newReportID()\<close> returns, a fresh UUID string.
\<close>

definition newAlertEntry ::
  "('a \<Rightarrow> string) \<Rightarrow> ('s, 'e) RepositoryService \<Rightarrow> 'a \<Rightarrow> time \<Rightarrow> string \<Rightarrow> AlertEntry" where
  "newAlertEntry AlertID x alert now newReportID =
     \<lparr>PKey = ''alertmap/'' @ AlertID alert,
      SKey = ''Fixed'',
      ExpiresAt = Unix (Add (UTC now) (ttl x)),
      CreatedAt = Unix (UTC now),
      ReportID = newReportID\<rparr>"

definition TakeReport ::
  "('a \<Rightarrow> string) \<Rightarrow> ('s, 'e) RepositoryService \<Rightarrow> 'a \<Rightarrow> time \<Rightarrow> string \<Rightarrow> 's \<Rightarrow>
   ('e error + ('a, 'c) Report) \<times> 's" where
  "TakeReport AlertID x alert now newReportID s =
     (let entry = newAlertEntry AlertID x alert now newReportID
      in case repoPutAlertEntry (repo x) entry now s of
           (Some err, s') \<Rightarrow>
             if repoIsConditionalCheckErr (repo x) err then
               (case repoGetAlertEntry (repo x) (PKey entry) (SKey entry) s' of
                  Inl err' \<Rightarrow> (Inl (Wrap (Ext err') ''Fail to get cached reportID''), s')
                | Inr existedEntry \<Rightarrow>
                    (Inr \<lparr>ID = AlertEntry.ReportID existedEntry,
                          Status = StatusMore,
                          CreatedAt = time_Unix (RecordBase.CreatedAt existedEntry) 0,
                          Alerts = [],
                          Sections = []\<rparr>, s'))
             else (Inl (Wrap (Ext err) ''Fail to create new alert entry''), s')
         | (None, s') \<Rightarrow>
             (Inr \<lparr>ID = AlertEntry.ReportID entry,
                   Status = StatusNew,
                   CreatedAt = now,
                   Alerts = [],
                   Sections = []\<rparr>, s'))"

section \<open>Attribute cache\<close>

definition toAttributeCacheKey :: "string \<Rightarrow> string" where
  "toAttributeCacheKey reportID = ''attribute/'' @ reportID"

text \<open>The \<^verbatim>\<open>models.AttributeCache\<close> literal of \<^verbatim>\<open>PutAttributeCache\<close>, with \<open>ts\<close> inlined.\<close>

definition newAttributeCache ::
  "(Attribute \<Rightarrow> string) \<Rightarrow> ('s, 'e) RepositoryService \<Rightarrow> string \<Rightarrow> Attribute \<Rightarrow> time \<Rightarrow>
   AttributeCache" where
  "newAttributeCache Hash x reportID attr now =
     (let ts = (case Attribute.Timestamp attr of Some t \<Rightarrow> t | None \<Rightarrow> now)
      in \<lparr>PKey = toAttributeCacheKey reportID,
          SKey = Hash attr,
          ExpiresAt = Unix (Add now (ttl x)),
          CreatedAt = 0,
          Timestamp = ts,
          AttrKey = Key attr,
          AttrType = Attribute.Type attr,
          AttrValue = Value attr,
          AttrContext = Context attr\<rparr>)"

text \<open>\<^verbatim>\<open>PutAttributeCache\<close> returns a pair \<^verbatim>\<open>(bool, error)\<close>; \<open>None\<close> is the nil error.\<close>

definition PutAttributeCache ::
  "(Attribute \<Rightarrow> string) \<Rightarrow> ('s, 'e) RepositoryService \<Rightarrow> string \<Rightarrow> Attribute \<Rightarrow> time \<Rightarrow> 's \<Rightarrow>
   (bool \<times> 'e error option) \<times> 's" where
  "PutAttributeCache Hash x reportID attr now s =
     (let cache = newAttributeCache Hash x reportID attr now
      in case repoPutAttributeCache (repo x) cache now s of
           (Some err, s') \<Rightarrow>
             if repoIsConditionalCheckErr (repo x) err then ((False, None), s')
             else ((False, Some (Wrap (Ext err) ''Fail to put attr cache'')), s')
         | (None, s') \<Rightarrow> ((True, None), s'))"

text \<open>
  \<^verbatim>\<open>FetchAttributeCache\<close>. The repository returns a slice of pointers to records, so
  \<^verbatim>\<open>&cache.Timestamp\<close> is the address of the field of each record.
\<close>

definition FetchAttributeCache ::
  "('s, 'e) RepositoryService \<Rightarrow> string \<Rightarrow> 's \<Rightarrow> 'e error + Attribute list" where
  "FetchAttributeCache x reportID s =
     (let pk = toAttributeCacheKey reportID
      in case repoGetAttributeCaches (repo x) pk s of
           Inl err \<Rightarrow> Inl (Wrap (Ext err) ''Fail to retrieve attributeCache'')
         | Inr caches \<Rightarrow>
             Inr (map (\<lambda>cache.
                    \<lparr>Attribute.Type = AttrType cache,
                     Key = AttrKey cache,
                     Value = AttrValue cache,
                     Context = AttrContext cache,
                     Timestamp = Some (AttributeCache.Timestamp cache)\<rparr>) caches))"

section \<open>A repository with conditional create\<close>

text \<open>
  Modelled from the spec: the implementations of \<^verbatim>\<open>adaptor.Repository\<close> (the DynamoDB
  adaptor and its mock) are not among the sources. The store of the spec keeps records
  under a partition key and a sort key and offers \<open>Put(record, conditional)\<close>, \<open>Get\<close>
  and \<open>Scan\<close>; its errors are the conditional-check failure and any other fault.
\<close>

datatype StoreErr = ConditionalCheckFailed | NotFound | Fault string

text \<open>
  Modelled from the spec: the state of the store, the records of the two kinds in the order
  in which they were written. A store that is out of order (\<open>fault\<close>) fails every
  operation with that fault.
\<close>

record Store =
  alertEntries :: "AlertEntry list"
  attributeCaches :: "AttributeCache list"
  fault :: "string option"

text \<open>Modelled from the spec: a record is stored at its partition key and sort key.\<close>

definition sameKey :: "string \<Rightarrow> string \<Rightarrow> 'r RecordBase_scheme \<Rightarrow> bool" where
  "sameKey pk sk r \<longleftrightarrow> PKey r = pk \<and> SKey r = sk"

text \<open>
  Modelled from the spec: the conditional put. It creates the record when no record is
  stored at its key, or when the stored one has expired at the \<open>now\<close> handed to the put
  (the expiry timestamp that the store honours: an alert that arrives after the expiry of
  the entry opens a new report); otherwise it reports the conditional-check failure and
  leaves the records as they are.
\<close>

definition conditionalCreate ::
  "'r RecordBase_scheme \<Rightarrow> time \<Rightarrow> 'r RecordBase_scheme list \<Rightarrow>
   StoreErr option \<times> 'r RecordBase_scheme list" where
  "conditionalCreate r now rs =
     (case find (sameKey (PKey r) (SKey r)) rs of
        None \<Rightarrow> (None, rs @ [r])
      | Some old \<Rightarrow>
          if ExpiresAt old < Unix now
          then (None, filter (\<lambda>y. \<not> sameKey (PKey r) (SKey r) y) rs @ [r])
          else (Some ConditionalCheckFailed, rs))"

text \<open>
  Modelled from the spec: the five operations of \<^verbatim>\<open>adaptor.Repository\<close> that the service
  calls, on the store: the two conditional puts, the get of an alert entry (an error when
  there is none), and the scan of the attribute caches of a partition.
\<close>

definition storePutAlertEntry :: "AlertEntry \<Rightarrow> time \<Rightarrow> Store \<Rightarrow> StoreErr option \<times> Store" where
  "storePutAlertEntry entry now s =
     (case fault s of
        Some m \<Rightarrow> (Some (Fault m), s)
      | None \<Rightarrow>
          (case conditionalCreate entry now (alertEntries s) of
             (err, rs) \<Rightarrow> (err, s\<lparr>alertEntries := rs\<rparr>)))"

definition storeGetAlertEntry :: "string \<Rightarrow> string \<Rightarrow> Store \<Rightarrow> StoreErr + AlertEntry" where
  "storeGetAlertEntry pk sk s =
     (case fault s of
        Some m \<Rightarrow> Inl (Fault m)
      | None \<Rightarrow>
          (case find (sameKey pk sk) (alertEntries s) of
             None \<Rightarrow> Inl NotFound
           | Some entry \<Rightarrow> Inr entry))"

definition storePutAttributeCache ::
  "AttributeCache \<Rightarrow> time \<Rightarrow> Store \<Rightarrow> StoreErr option \<times> Store" where
  "storePutAttributeCache cache now s =
     (case fault s of
        Some m \<Rightarrow> (Some (Fault m), s)
      | None \<Rightarrow>
          (case conditionalCreate cache now (attributeCaches s) of
             (err, rs) \<Rightarrow> (err, s\<lparr>attributeCaches := rs\<rparr>)))"

definition storeGetAttributeCaches :: "string \<Rightarrow> Store \<Rightarrow> StoreErr + AttributeCache list" where
  "storeGetAttributeCaches pk s =
     (case fault s of
        Some m \<Rightarrow> Inl (Fault m)
      | None \<Rightarrow> Inr (filter (\<lambda>c. PKey c = pk) (attributeCaches s)))"

text \<open>Modelled from the spec: the store as an implementation of the interface.\<close>

definition storeRepo :: "(Store, StoreErr) Repository" where
  "storeRepo =
     \<lparr>repoPutAlertEntry = storePutAlertEntry,
      repoGetAlertEntry = storeGetAlertEntry,
      repoPutAttributeCache = storePutAttributeCache,
      repoGetAttributeCaches = storeGetAttributeCaches,
      repoIsConditionalCheckErr = (\<lambda>err. err = ConditionalCheckFailed)\<rparr>"

text \<open>A record is stored at the key and has not expired at \<open>now\<close>.\<close>

definition liveAt :: "string \<Rightarrow> string \<Rightarrow> time \<Rightarrow> 'r RecordBase_scheme list \<Rightarrow> bool" where
  "liveAt pk sk now rs =
     (case find (sameKey pk sk) rs of
        None \<Rightarrow> False
      | Some old \<Rightarrow> Unix now \<le> ExpiresAt old)"

text \<open>Calls made one after the other on the same store, each on the state the last one left.\<close>

fun runCalls :: "('c \<Rightarrow> 's \<Rightarrow> 'r \<times> 's) \<Rightarrow> 'c list \<Rightarrow> 's \<Rightarrow> 'r list \<times> 's" where
  "runCalls f [] s = ([], s)"
| "runCalls f (c # cs) s =
     (case f c s of
        (r, s') \<Rightarrow> (case runCalls f cs s' of (rs, s'') \<Rightarrow> (r # rs, s'')))"

section \<open>Section assembly as the specification words it\<close>

text \<open>
  A finding whose payload has the type that its declared kind announces. A kind other than
  host, user and binary announces nothing.
\<close>

definition kindMatches :: "('h, 'u, 'b) InspectReport \<Rightarrow> bool" where
  "kindMatches ir =
     (case InspectReport.Type ir of
        ContentHost \<Rightarrow> (case Content ir of HostPtr _ \<Rightarrow> True | _ \<Rightarrow> False)
      | ContentUser \<Rightarrow> (case Content ir of UserPtr _ \<Rightarrow> True | _ \<Rightarrow> False)
      | ContentBinary \<Rightarrow> (case Content ir of BinaryPtr _ \<Rightarrow> True | _ \<Rightarrow> False)
      | ContentOther _ \<Rightarrow> True)"

text \<open>
  The specification of \<open>AssembleSections\<close>: the findings are grouped by attribute hash
  (\<open>findingsOf\<close>); the first finding of a group initializes the section's origin attribute
  (\<open>newSection\<close>); every finding of the group contributes its content to the collection
  of its kind (\<open>contribute\<close>). \<open>sectionOf\<close> is the section of a group, and
  \<open>sectionHash\<close> the attribute hash that a section is keyed by.
\<close>

definition contribute ::
  "('h, 'u, 'b) InspectReport \<Rightarrow> ('h, 'u, 'b) ReportSection \<Rightarrow> ('h, 'u, 'b) ReportSection" where
  "contribute f sec =
     (case (InspectReport.Type f, Content f) of
        (ContentHost, HostPtr c) \<Rightarrow> sec\<lparr>Hosts := Hosts sec @ [c]\<rparr>
      | (ContentUser, UserPtr c) \<Rightarrow> sec\<lparr>Users := Users sec @ [c]\<rparr>
      | (ContentBinary, BinaryPtr c) \<Rightarrow> sec\<lparr>Binaries := Binaries sec @ [c]\<rparr>
      | _ \<Rightarrow> sec)"

definition newSection :: "('h, 'u, 'b) InspectReport \<Rightarrow> ('h, 'u, 'b) ReportSection" where
  "newSection f = \<lparr>OriginAttr = Some (Attribute f), Hosts = [], Users = [], Binaries = []\<rparr>"

definition findingsOf ::
  "(Attribute \<Rightarrow> string) \<Rightarrow> string \<Rightarrow> ('h, 'u, 'b) InspectReport list \<Rightarrow>
   ('h, 'u, 'b) InspectReport list" where
  "findingsOf Hash h irs = filter (\<lambda>f. Hash (Attribute f) = h) irs"

definition sectionOf :: "('h, 'u, 'b) InspectReport list \<Rightarrow> ('h, 'u, 'b) ReportSection option" where
  "sectionOf g = (case g of [] \<Rightarrow> None | f # fs \<Rightarrow> Some (fold contribute (f # fs) (newSection f)))"

definition sectionHash ::
  "(Attribute \<Rightarrow> string) \<Rightarrow> ('h, 'u, 'b) ReportSection \<Rightarrow> string option" where
  "sectionHash Hash sec = map_option Hash (OriginAttr sec)"

text \<open>
  The contents that the findings of a group put into the three collections: a finding puts
  its payload into the collection of its kind, and a finding of another kind puts nothing.
\<close>

definition hostsOf :: "('h, 'u, 'b) InspectReport list \<Rightarrow> 'h list" where
  "hostsOf g =
     concat (map (\<lambda>f. case (InspectReport.Type f, Content f) of
                         (ContentHost, HostPtr c) \<Rightarrow> [c]
                       | _ \<Rightarrow> []) g)"

definition usersOf :: "('h, 'u, 'b) InspectReport list \<Rightarrow> 'u list" where
  "usersOf g =
     concat (map (\<lambda>f. case (InspectReport.Type f, Content f) of
                         (ContentUser, UserPtr c) \<Rightarrow> [c]
                       | _ \<Rightarrow> []) g)"

definition binariesOf :: "('h, 'u, 'b) InspectReport list \<Rightarrow> 'b list" where
  "binariesOf g =
     concat (map (\<lambda>f. case (InspectReport.Type f, Content f) of
                         (ContentBinary, BinaryPtr c) \<Rightarrow> [c]
                       | _ \<Rightarrow> []) g)"

section \<open>Example data\<close>

text \<open>
  A service with a window of ten seconds over the store, an alert type of detector, rule
  name and alert key with their concatenation for \<open>AlertID\<close>, and findings of one report.
\<close>

definition exampleService :: "(Store, StoreErr) RepositoryService" where
  "exampleService = \<lparr>repo = storeRepo, ttl = 10000000000\<rparr>"

definition emptyStore :: Store where
  "emptyStore = \<lparr>alertEntries = [], attributeCaches = [], fault = None\<rparr>"

definition exampleAlertID :: "string \<times> string \<times> string \<Rightarrow> string" where
  "exampleAlertID alert = fst alert @ ''/'' @ fst (snd alert) @ ''/'' @ snd (snd alert)"

definition exampleAlert :: "string \<times> string \<times> string" where
  "exampleAlert = (''edr'', ''malware'', ''host-1'')"

definition exampleAttr :: "string \<Rightarrow> Attribute" where
  "exampleAttr k =
     \<lparr>Attribute.Type = ''ipaddr'', Key = k, Value = ''10.0.0.1'', Context = [], Timestamp = None\<rparr>"

definition exampleFindings :: "(string, string, string) InspectReport list" where
  "exampleFindings =
     [\<lparr>InspectReport.ReportID = ''r1'', Attribute = exampleAttr ''src'',
       Type = ContentHost, Content = HostPtr ''host-1''\<rparr>,
      \<lparr>InspectReport.ReportID = ''r1'', Attribute = exampleAttr ''src'',
       Type = ContentUser, Content = UserPtr ''alice''\<rparr>,
      \<lparr>InspectReport.ReportID = ''r1'', Attribute = exampleAttr ''dst'',
       Type = ContentBinary, Content = BinaryPtr ''ls''\<rparr>]"

text \<open>A finding whose payload is not of its kind.\<close>

definition mismatchedFinding :: "(string, string, string) InspectReport" where
  "mismatchedFinding =
     \<lparr>InspectReport.ReportID = ''r1'', Attribute = exampleAttr ''src'',
      Type = ContentBinary, Content = UserPtr ''alice''\<rparr>"

text \<open>The store after the example alert got the report \<open>id-1\<close> at 7.3 seconds.\<close>

definition entryStore :: Store where
  "entryStore =
     \<lparr>alertEntries =
        [\<lparr>PKey = ''alertmap/edr/malware/host-1'', SKey = ''Fixed'', ExpiresAt = 17,
          CreatedAt = 7, ReportID = ''id-1''\<rparr>],
      attributeCaches = [], fault = None\<rparr>"

text \<open>The store after the attribute \<open>src\<close> of report \<open>r1\<close> was cached at one second.\<close>

definition cachedStore :: Store where
  "cachedStore =
     \<lparr>alertEntries = [],
      attributeCaches =
        [\<lparr>PKey = ''attribute/r1'', SKey = ''src'', ExpiresAt = 11, CreatedAt = 0,
          Timestamp = 1000000000, AttrKey = ''src'', AttrType = ''ipaddr'',
          AttrValue = ''10.0.0.1'', AttrContext = []\<rparr>],
      fault = None\<rparr>"

definition faultyStore :: Store where
  "faultyStore = \<lparr>alertEntries = [], attributeCaches = [], fault = Some ''throttled''\<rparr>"

text \<open>
  Findings of one report: a host finding for the attribute \<open>src\<close>, then a finding of
  another kind for the same attribute, and a finding of another kind for \<open>dst\<close>.
\<close>

definition otherKindFindings :: "(string, string, string) InspectReport list" where
  "otherKindFindings =
     [\<lparr>InspectReport.ReportID = ''r1'', Attribute = exampleAttr ''src'',
       Type = ContentHost, Content = HostPtr ''host-1''\<rparr>,
      \<lparr>InspectReport.ReportID = ''r1'', Attribute = exampleAttr ''src'',
       Type = ContentOther ''url'', Content = HostPtr ''host-9''\<rparr>,
      \<lparr>InspectReport.ReportID = ''r1'', Attribute = exampleAttr ''dst'',
       Type = ContentOther ''url'', Content = UserPtr ''bob''\<rparr>]"

lemmas time_eval = UTC_def Add_def Unix_def time_Unix_def

lemmas store_eval =
  storeRepo_def storePutAlertEntry_def storeGetAlertEntry_def storePutAttributeCache_def
  storeGetAttributeCaches_def conditionalCreate_def sameKey_def liveAt_def

lemmas example_eval =
  exampleService_def emptyStore_def exampleAlertID_def exampleAlert_def exampleAttr_def
  entryStore_def cachedStore_def

section \<open>Properties of section assembly\<close>

lemma remapStep_ok:
  assumes "kindMatches ir"
  shows "(remapStep Hash secs ir :: 'e error + _) =
     Inr (AList.update (Hash (Attribute ir))
            (contribute ir
               (case map_of secs (Hash (Attribute ir)) of
                  Some sec \<Rightarrow> sec
                | None \<Rightarrow> newSection ir)) secs)"
  using assms
  by (auto simp: remapStep_def kindMatches_def contribute_def newSection_def Let_def
      AList.update_triv split: ContentType.splits Content.splits option.splits)

lemma remapStep_mismatch:
  assumes "\<not> kindMatches ir"
  shows "\<exists>m. remapStep Hash secs ir = (Inl (New m) :: 'e error + _)"
  using assms
  by (auto simp: remapStep_def kindMatches_def Let_def
      split: ContentType.splits Content.splits option.splits prod.splits)

lemma remapLoop_mismatch:
  assumes "\<exists>ir\<in>set irs. \<not> kindMatches ir"
  shows "\<exists>m. remapLoop Hash secs irs = (Inl (New m) :: 'e error + _)"
  using assms
proof (induction irs arbitrary: secs)
  case Nil
  then show ?case by simp
next
  case (Cons ir irs)
  show ?case
  proof (cases "kindMatches ir")
    case True
    with Cons.prems have "\<exists>ir\<in>set irs. \<not> kindMatches ir" by auto
    from Cons.IH[OF this] True show ?thesis by (simp add: remapStep_ok)
  next
    case False
    from remapStep_mismatch[OF this] obtain m
      where "remapStep Hash secs ir = (Inl (New m) :: 'e error + _)" by blast
    then show ?thesis by auto
  qed
qed

text \<open>A finding whose payload does not match its kind fails the assembly: no sections.\<close>

lemma remapSection_mismatch_fails:
  assumes "\<exists>ir\<in>set irs. \<not> kindMatches ir"
  shows "\<exists>m. remapSection Hash irs = (Inl (New m) :: 'e error + _)"
proof -
  from remapLoop_mismatch[OF assms, of Hash "[]", where ?'e = 'e]
  obtain m where "remapLoop Hash [] irs = (Inl (New m) :: 'e error + _)" by blast
  then show ?thesis by (simp add: remapSection_def)
qed

lemma fold_contribute_OriginAttr: "OriginAttr (fold contribute g sec) = OriginAttr sec"
  by (induction g arbitrary: sec)
     (auto simp: contribute_def split: ContentType.splits Content.splits)

text \<open>
  The loop refines the grouping: started on a map \<open>secs\<close>, it extends the sections that
  are there by the findings of their hash, and adds the section of every other group.
\<close>

lemma remapLoop_ok:
  assumes "\<forall>ir\<in>set irs. kindMatches ir"
  shows "\<exists>res. (remapLoop Hash secs irs :: 'e error + _) = Inr res
           \<and> (distinct (map fst secs) \<longrightarrow> distinct (map fst res))
           \<and> (\<forall>h. map_of res h =
                  (case map_of secs h of
                     Some sec \<Rightarrow> Some (fold contribute (findingsOf Hash h irs) sec)
                   | None \<Rightarrow> sectionOf (findingsOf Hash h irs)))"
  using assms
proof (induction irs arbitrary: secs)
  case Nil
  then show ?case by (auto simp: findingsOf_def sectionOf_def split: option.splits)
next
  case (Cons ir irs)
  let ?hv = "Hash (Attribute ir)"
  let ?secs' = "AList.update ?hv
            (contribute ir (case map_of secs ?hv of Some sec \<Rightarrow> sec | None \<Rightarrow> newSection ir)) secs"
  from Cons.prems have k: "kindMatches ir" and ks: "\<forall>ir\<in>set irs. kindMatches ir" by auto
  have step: "(remapStep Hash secs ir :: 'e error + _) = Inr ?secs'"
    by (rule remapStep_ok[OF k])
  from Cons.IH[OF ks, of ?secs'] obtain res where
    r: "(remapLoop Hash ?secs' irs :: 'e error + _) = Inr res"
    and d: "distinct (map fst ?secs') \<longrightarrow> distinct (map fst res)"
    and m: "\<forall>h. map_of res h =
                  (case map_of ?secs' h of
                     Some sec \<Rightarrow> Some (fold contribute (findingsOf Hash h irs) sec)
                   | None \<Rightarrow> sectionOf (findingsOf Hash h irs))"
    by blast
  have "(remapLoop Hash secs (ir # irs) :: 'e error + _) = Inr res"
    using step r by simp
  moreover have "distinct (map fst secs) \<longrightarrow> distinct (map fst res)"
    using d by (simp add: AList.distinct_update)
  moreover have "map_of res h =
                  (case map_of secs h of
                     Some sec \<Rightarrow> Some (fold contribute (findingsOf Hash h (ir # irs)) sec)
                   | None \<Rightarrow> sectionOf (findingsOf Hash h (ir # irs)))" for h
    using m[rule_format, of h]
    by (auto simp: AList.update_conv' findingsOf_def sectionOf_def split: option.splits)
  ultimately show ?case by blast
qed

lemma Hosts_contribute_mono: "c \<in> set (Hosts sec) \<Longrightarrow> c \<in> set (Hosts (contribute f sec))"
  by (auto simp: contribute_def split: ContentType.splits Content.splits)

lemma Users_contribute_mono: "c \<in> set (Users sec) \<Longrightarrow> c \<in> set (Users (contribute f sec))"
  by (auto simp: contribute_def split: ContentType.splits Content.splits)

lemma Hosts_fold_mono: "c \<in> set (Hosts sec) \<Longrightarrow> c \<in> set (Hosts (fold contribute g sec))"
  by (induction g arbitrary: sec) (auto simp: Hosts_contribute_mono)

lemma Users_fold_mono: "c \<in> set (Users sec) \<Longrightarrow> c \<in> set (Users (fold contribute g sec))"
  by (induction g arbitrary: sec) (auto simp: Users_contribute_mono)

lemma Hosts_fold_member:
  assumes "f \<in> set g" "InspectReport.Type f = ContentHost" "Content f = HostPtr c"
  shows "c \<in> set (Hosts (fold contribute g sec))"
  using assms
proof (induction g arbitrary: sec)
  case Nil
  then show ?case by simp
next
  case (Cons a g)
  show ?case
  proof (cases "f = a")
    case True
    with Cons.prems have "c \<in> set (Hosts (contribute a sec))"
      by (simp add: contribute_def)
    then show ?thesis by (simp add: Hosts_fold_mono)
  next
    case False
    with Cons.prems have "f \<in> set g" by simp
    from Cons.IH[OF this Cons.prems(2,3)] show ?thesis by simp
  qed
qed

lemma Users_fold_member:
  assumes "f \<in> set g" "InspectReport.Type f = ContentUser" "Content f = UserPtr c"
  shows "c \<in> set (Users (fold contribute g sec))"
  using assms
proof (induction g arbitrary: sec)
  case Nil
  then show ?case by simp
next
  case (Cons a g)
  show ?case
  proof (cases "f = a")
    case True
    with Cons.prems have "c \<in> set (Users (contribute a sec))"
      by (simp add: contribute_def)
    then show ?thesis by (simp add: Users_fold_mono)
  next
    case False
    with Cons.prems have "f \<in> set g" by simp
    from Cons.IH[OF this Cons.prems(2,3)] show ?thesis by simp
  qed
qed

lemma find_filter_hd: "filter P xs = f # fs \<Longrightarrow> find P xs = Some f"
  by (induction xs) (auto split: if_splits)

lemma filter_snd_unique:
  assumes "distinct (map fst xs)" "(k, v) \<in> set xs"
    and "\<forall>p\<in>set xs. P (snd p) \<longleftrightarrow> fst p = k"
  shows "filter P (map snd xs) = [v]"
  using assms
proof (induction xs)
  case Nil
  then show ?case by simp
next
  case (Cons x xs)
  obtain k' s where x: "x = (k', s)" by (cases x)
  show ?case
  proof (cases "k' = k")
    case True
    with Cons.prems x have v: "s = v" and notin: "k \<notin> fst ` set xs"
      by (auto simp: image_iff)
    have "\<forall>p\<in>set xs. \<not> P (snd p)"
      using Cons.prems(3) notin by (auto simp: image_iff)
    then have "filter P (map snd xs) = []" by (auto simp: filter_empty_conv)
    moreover have "P s" using Cons.prems(3) x True by simp
    ultimately show ?thesis using x v by simp
  next
    case False
    with Cons.prems x have "(k, v) \<in> set xs" "distinct (map fst xs)"
      "\<forall>p\<in>set xs. P (snd p) \<longleftrightarrow> fst p = k" "\<not> P s"
      by auto
    with Cons.IH x show ?thesis by simp
  qed
qed

lemma sectionOf_Some:
  assumes "sectionOf (findingsOf Hash h irs) = Some sec"
  shows "sectionHash Hash sec = Some h
       \<and> OriginAttr sec = map_option Attribute (find (\<lambda>f. Hash (Attribute f) = h) irs)"
proof -
  from assms obtain f fs where g: "findingsOf Hash h irs = f # fs"
    and sec: "sec = fold contribute (f # fs) (newSection f)"
    by (auto simp: sectionOf_def split: list.splits)
  have "f \<in> set (findingsOf Hash h irs)" using g by simp
  then have h: "Hash (Attribute f) = h" by (simp add: findingsOf_def)
  have o: "OriginAttr sec = Some (Attribute f)"
    unfolding sec fold_contribute_OriginAttr by (simp add: newSection_def)
  have "find (\<lambda>f. Hash (Attribute f) = h) irs = Some f"
    using g unfolding findingsOf_def by (rule find_filter_hd)
  with o h show ?thesis by (simp add: sectionHash_def)
qed

text \<open>
  For findings that all carry the payload of their kind, the assembly succeeds and returns,
  for the hash of each finding, exactly one section: the section of that group.
\<close>

lemma remapSection_section_of_hash:
  assumes wt: "\<forall>ir\<in>set irs. kindMatches ir" and F: "F \<in> set irs"
  shows "\<exists>secs sec. (remapSection Hash irs :: 'e error + _) = Inr secs
           \<and> {#s \<in># secs. sectionHash Hash s = Some (Hash (Attribute F))#} = {#sec#}
           \<and> sectionOf (findingsOf Hash (Hash (Attribute F)) irs) = Some sec"
proof -
  let ?h = "Hash (Attribute F)"
  from remapLoop_ok[OF wt, of Hash "[]"] obtain res where
    r: "(remapLoop Hash [] irs :: 'e error + _) = Inr res"
    and d: "distinct (map fst res)"
    and m: "\<And>h. map_of res h = sectionOf (findingsOf Hash h irs)"
    by auto
  have "F \<in> set (findingsOf Hash ?h irs)" using F by (simp add: findingsOf_def)
  then obtain sec where s: "sectionOf (findingsOf Hash ?h irs) = Some sec"
    by (cases "findingsOf Hash ?h irs") (auto simp: sectionOf_def)
  then have "map_of res ?h = Some sec" by (simp add: m)
  then have mem: "(?h, sec) \<in> set res" by (rule map_of_SomeD)
  have keys: "\<forall>p\<in>set res. sectionHash Hash (snd p) = Some ?h \<longleftrightarrow> fst p = ?h"
  proof
    fix p assume "p \<in> set res"
    then have "(fst p, snd p) \<in> set res" by simp
    with d have "map_of res (fst p) = Some (snd p)" by (rule map_of_is_SomeI)
    then have "sectionOf (findingsOf Hash (fst p) irs) = Some (snd p)" by (simp add: m)
    from sectionOf_Some[OF this] show "sectionHash Hash (snd p) = Some ?h \<longleftrightarrow> fst p = ?h"
      by auto
  qed
  have "filter (\<lambda>s. sectionHash Hash s = Some ?h) (map snd res) = [sec]"
    by (rule filter_snd_unique[OF d mem keys])
  then have "{#s \<in># mset (map snd res). sectionHash Hash s = Some ?h#} = {#sec#}"
    by (metis mset_filter mset.simps(1) mset.simps(2))
  with r s show ?thesis by (auto simp: remapSection_def)
qed

text \<open>
  C3. Among findings that carry the payload of their kind, let \<open>F1\<close> have host content and
  attribute hash \<open>H\<close>, \<open>F2\<close> user content and the same hash, and \<open>F3\<close> another hash
  \<open>H2\<close>. Then the assembly returns sections of which exactly one is keyed by \<open>H\<close>; its
  hosts contain the host of \<open>F1\<close> and its users the user of \<open>F2\<close>. Exactly one other
  section is keyed by \<open>H2\<close>. The origin attribute of each is the attribute of the first
  finding of its hash, and each is the section of its own group of findings.
\<close>

theorem remapSection_groups_by_hash:
  assumes wt: "\<forall>ir\<in>set irs. kindMatches ir"
    and F1: "F1 \<in> set irs" "InspectReport.Type F1 = ContentHost" "Content F1 = HostPtr host"
      "Hash (Attribute F1) = H"
    and F2: "F2 \<in> set irs" "InspectReport.Type F2 = ContentUser" "Content F2 = UserPtr user"
      "Hash (Attribute F2) = H"
    and F3: "F3 \<in> set irs" "Hash (Attribute F3) = H2" "H2 \<noteq> H"
  shows "\<exists>secs sH sH2. (remapSection Hash irs :: 'e error + _) = Inr secs
           \<and> {#s \<in># secs. sectionHash Hash s = Some H#} = {#sH#}
           \<and> host \<in> set (Hosts sH) \<and> user \<in> set (Users sH)
           \<and> {#s \<in># secs. sectionHash Hash s = Some H2#} = {#sH2#}
           \<and> sH2 \<noteq> sH
           \<and> OriginAttr sH = map_option Attribute (find (\<lambda>f. Hash (Attribute f) = H) irs)
           \<and> OriginAttr sH2 = map_option Attribute (find (\<lambda>f. Hash (Attribute f) = H2) irs)
           \<and> sectionOf (findingsOf Hash H irs) = Some sH
           \<and> sectionOf (findingsOf Hash H2 irs) = Some sH2"
proof -
  from remapSection_section_of_hash[OF wt F1(1), of Hash, where ?'e = 'e] F1(4)
  obtain secs sH where
    r: "(remapSection Hash irs :: 'e error + _) = Inr secs"
    and cH: "{#s \<in># secs. sectionHash Hash s = Some H#} = {#sH#}"
    and sH: "sectionOf (findingsOf Hash H irs) = Some sH"
    by auto
  from remapSection_section_of_hash[OF wt F3(1), of Hash, where ?'e = 'e] F3(2) r
  obtain sH2 where
    cH2: "{#s \<in># secs. sectionHash Hash s = Some H2#} = {#sH2#}"
    and sH2: "sectionOf (findingsOf Hash H2 irs) = Some sH2"
    by auto
  from sH obtain f fs where g: "findingsOf Hash H irs = f # fs"
    and sHeq: "sH = fold contribute (findingsOf Hash H irs) (newSection f)"
    by (auto simp: sectionOf_def split: list.splits)
  have "F1 \<in> set (findingsOf Hash H irs)" using F1 by (simp add: findingsOf_def)
  then have host: "host \<in> set (Hosts sH)"
    unfolding sHeq using F1(2,3) by (rule Hosts_fold_member)
  have "F2 \<in> set (findingsOf Hash H irs)" using F2 by (simp add: findingsOf_def)
  then have user: "user \<in> set (Users sH)"
    unfolding sHeq using F2(2,3) by (rule Users_fold_member)
  from sectionOf_Some[OF sH] have hH: "sectionHash Hash sH = Some H"
    and oH: "OriginAttr sH = map_option Attribute (find (\<lambda>f. Hash (Attribute f) = H) irs)"
    by simp_all
  from sectionOf_Some[OF sH2] have hH2: "sectionHash Hash sH2 = Some H2"
    and oH2: "OriginAttr sH2 = map_option Attribute (find (\<lambda>f. Hash (Attribute f) = H2) irs)"
    by simp_all
  have ne: "sH2 \<noteq> sH" using hH hH2 F3(3) by auto
  show ?thesis
    using r cH host user cH2 ne oH oH2 sH sH2 by blast
qed

theorem remapSection_groups_by_hash_witness:
  "\<exists>secs sH sH2. (remapSection Key exampleFindings :: unit error + _) = Inr secs
           \<and> {#s \<in># secs. sectionHash Key s = Some ''src''#} = {#sH#}
           \<and> ''host-1'' \<in> set (Hosts sH) \<and> ''alice'' \<in> set (Users sH)
           \<and> {#s \<in># secs. sectionHash Key s = Some ''dst''#} = {#sH2#}
           \<and> sH2 \<noteq> sH
           \<and> OriginAttr sH = map_option Attribute (find (\<lambda>f. Key (Attribute f) = ''src'') exampleFindings)
           \<and> OriginAttr sH2 = map_option Attribute (find (\<lambda>f. Key (Attribute f) = ''dst'') exampleFindings)
           \<and> sectionOf (findingsOf Key ''src'' exampleFindings) = Some sH
           \<and> sectionOf (findingsOf Key ''dst'' exampleFindings) = Some sH2"
  by (rule remapSection_groups_by_hash[where
        ?F1.0 = "exampleFindings ! 0" and ?F2.0 = "exampleFindings ! 1"
        and ?F3.0 = "exampleFindings ! 2"])
     (simp_all add: exampleFindings_def exampleAttr_def kindMatches_def)

text \<open>The sections that the example findings assemble to.\<close>

lemma remapSection_exampleFindings:
  "(remapSection Key exampleFindings :: unit error + _) =
     Inr {#\<lparr>OriginAttr = Some (exampleAttr ''src''), Hosts = [''host-1''], Users = [''alice''],
            Binaries = []\<rparr>,
          \<lparr>OriginAttr = Some (exampleAttr ''dst''), Hosts = [], Users = [],
            Binaries = [''ls'']\<rparr>#}"
  by (simp add: remapSection_def remapStep_def exampleFindings_def exampleAttr_def Let_def)

text \<open>
  C5. A finding of kind binary with a payload that is no binary content fails the assembly
  and no sections are returned, but the error names \<^verbatim>\<open>deepalert.ReportHost\<close>, the content
  type of kind host, as the type that the payload could not be cast to.
\<close>

theorem remapSection_binary_mismatch_names_ReportHost:
  "(remapSection Key [mismatchedFinding] :: unit error + _)
     = Inl (New ''Can not cast content to deepalert.ReportHost'')"
  by (simp add: remapSection_def remapStep_def Let_def mismatchedFinding_def)

lemma fold_contribute_collections:
  "Hosts (fold contribute g sec) = Hosts sec @ hostsOf g
   \<and> Users (fold contribute g sec) = Users sec @ usersOf g
   \<and> Binaries (fold contribute g sec) = Binaries sec @ binariesOf g"
proof (induction g arbitrary: sec)
  case Nil
  then show ?case by (simp add: hostsOf_def usersOf_def binariesOf_def)
next
  case (Cons f g)
  have "Hosts (contribute f sec) = Hosts sec @ hostsOf [f]
      \<and> Users (contribute f sec) = Users sec @ usersOf [f]
      \<and> Binaries (contribute f sec) = Binaries sec @ binariesOf [f]"
    by (simp add: contribute_def hostsOf_def usersOf_def binariesOf_def
        split: ContentType.splits Content.splits)
  moreover have "hostsOf (f # g) = hostsOf [f] @ hostsOf g"
    "usersOf (f # g) = usersOf [f] @ usersOf g"
    "binariesOf (f # g) = binariesOf [f] @ binariesOf g"
    by (simp_all add: hostsOf_def usersOf_def binariesOf_def)
  ultimately show ?case using Cons.IH[of "contribute f sec"] by simp
qed

lemma other_kinds_no_content:
  assumes "\<forall>f\<in>set g. \<exists>t. InspectReport.Type f = ContentOther t"
  shows "hostsOf g = [] \<and> usersOf g = [] \<and> binariesOf g = []"
  using assms
  by (induction g) (auto simp: hostsOf_def usersOf_def binariesOf_def)

text \<open>
  C8. A finding \<open>ir\<close> whose kind is none of host, user and binary matches whatever its
  payload, and the step of the loop for it never fails: it leaves every other section as it
  is, and the section of the finding's hash is the one that was there, unchanged, or, when
  there was none, a new section with the finding's attribute as origin and three empty
  collections. For a list of findings that holds \<open>ir\<close> (the others carrying the payload of
  their kind) the assembly succeeds and returns exactly one section for the hash of
  \<open>ir\<close>. Its origin is the attribute of the first finding of that hash, so that of \<open>ir\<close>
  when \<open>ir\<close> is the first; its collections hold the contents of the host, user and binary
  findings of that hash and nothing of \<open>ir\<close>; and when every finding of that hash is of
  another kind, the section has an origin and three empty collections.
\<close>

theorem remapSection_other_kind:
  assumes wt: "\<forall>f\<in>set irs. kindMatches f"
    and mem: "ir \<in> set irs"
    and other: "InspectReport.Type ir = ContentOther t"
  shows "kindMatches (ir\<lparr>Content := payload\<rparr>)
       \<and> (\<forall>secs0. \<exists>secs'. (remapStep Hash secs0 ir :: 'e error + _) = Inr secs'
             \<and> (\<forall>h. h \<noteq> Hash (Attribute ir) \<longrightarrow> map_of secs' h = map_of secs0 h)
             \<and> map_of secs' (Hash (Attribute ir)) =
                 Some (case map_of secs0 (Hash (Attribute ir)) of
                         Some sec \<Rightarrow> sec
                       | None \<Rightarrow>
                           \<lparr>OriginAttr = Some (Attribute ir), Hosts = [], Users = [],
                            Binaries = []\<rparr>))
       \<and> (\<exists>secs sec. (remapSection Hash irs :: 'e error + _) = Inr secs
             \<and> {#s \<in># secs. sectionHash Hash s = Some (Hash (Attribute ir))#} = {#sec#}
             \<and> OriginAttr sec \<noteq> None
             \<and> OriginAttr sec =
                 map_option Attribute (find (\<lambda>f. Hash (Attribute f) = Hash (Attribute ir)) irs)
             \<and> (find (\<lambda>f. Hash (Attribute f) = Hash (Attribute ir)) irs = Some ir
                  \<longrightarrow> OriginAttr sec = Some (Attribute ir))
             \<and> Hosts sec = hostsOf (findingsOf Hash (Hash (Attribute ir)) irs)
             \<and> Users sec = usersOf (findingsOf Hash (Hash (Attribute ir)) irs)
             \<and> Binaries sec = binariesOf (findingsOf Hash (Hash (Attribute ir)) irs)
             \<and> hostsOf [ir] = [] \<and> usersOf [ir] = [] \<and> binariesOf [ir] = []
             \<and> ((\<forall>f\<in>set irs. Hash (Attribute f) = Hash (Attribute ir)
                      \<longrightarrow> (\<exists>t'. InspectReport.Type f = ContentOther t'))
                  \<longrightarrow> Hosts sec = [] \<and> Users sec = [] \<and> Binaries sec = []))"
proof -
  let ?h = "Hash (Attribute ir)"
  have k: "kindMatches (ir\<lparr>Content := payload\<rparr>)"
    using other by (simp add: kindMatches_def)
  have step: "\<exists>secs'. (remapStep Hash secs0 ir :: 'e error + _) = Inr secs'
             \<and> (\<forall>h. h \<noteq> ?h \<longrightarrow> map_of secs' h = map_of secs0 h)
             \<and> map_of secs' ?h =
                 Some (case map_of secs0 ?h of
                         Some sec \<Rightarrow> sec
                       | None \<Rightarrow>
                           \<lparr>OriginAttr = Some (Attribute ir), Hosts = [], Users = [],
                            Binaries = []\<rparr>)" for secs0
    using other
    by (auto simp: remapStep_def Let_def AList.update_conv' split: option.splits)
  from remapSection_section_of_hash[OF wt mem, of Hash, where ?'e = 'e]
  obtain secs sec where
    r: "(remapSection Hash irs :: 'e error + _) = Inr secs"
    and one: "{#s \<in># secs. sectionHash Hash s = Some ?h#} = {#sec#}"
    and s: "sectionOf (findingsOf Hash ?h irs) = Some sec"
    by blast
  from sectionOf_Some[OF s]
  have o: "OriginAttr sec = map_option Attribute (find (\<lambda>f. Hash (Attribute f) = ?h) irs)"
    and sh: "sectionHash Hash sec = Some ?h"
    by simp_all
  from sh have nn: "OriginAttr sec \<noteq> None" by (auto simp: sectionHash_def)
  from s obtain f where
    sec: "sec = fold contribute (findingsOf Hash ?h irs) (newSection f)"
    by (auto simp: sectionOf_def split: list.splits)
  have cols: "Hosts sec = hostsOf (findingsOf Hash ?h irs)"
    "Users sec = usersOf (findingsOf Hash ?h irs)"
    "Binaries sec = binariesOf (findingsOf Hash ?h irs)"
    unfolding sec using fold_contribute_collections[of "findingsOf Hash ?h irs" "newSection f"]
    by (simp_all add: newSection_def)
  have own: "hostsOf [ir] = [] \<and> usersOf [ir] = [] \<and> binariesOf [ir] = []"
    using other by (simp add: hostsOf_def usersOf_def binariesOf_def)
  have empty: "Hosts sec = [] \<and> Users sec = [] \<and> Binaries sec = []"
    if "\<forall>f\<in>set irs. Hash (Attribute f) = ?h \<longrightarrow> (\<exists>t'. InspectReport.Type f = ContentOther t')"
  proof -
    from that have "\<forall>f\<in>set (findingsOf Hash ?h irs). \<exists>t'. InspectReport.Type f = ContentOther t'"
      by (simp add: findingsOf_def)
    from other_kinds_no_content[OF this] cols show ?thesis by simp
  qed
  have first: "OriginAttr sec = Some (Attribute ir)"
    if "find (\<lambda>f. Hash (Attribute f) = ?h) irs = Some ir"
    using o that by simp
  show ?thesis
    using k step r one nn o first cols own empty by blast
qed

text \<open>The sections that the example with findings of another kind assembles to.\<close>

lemma remapSection_otherKindFindings:
  "(remapSection Key otherKindFindings :: unit error + _) =
     Inr {#\<lparr>OriginAttr = Some (exampleAttr ''src''), Hosts = [''host-1''], Users = [],
            Binaries = []\<rparr>,
          \<lparr>OriginAttr = Some (exampleAttr ''dst''), Hosts = [], Users = [],
            Binaries = []\<rparr>#}"
  by (simp add: remapSection_def remapStep_def otherKindFindings_def exampleAttr_def Let_def)

theorem remapSection_other_kind_witness:
  "InspectReport.Type (otherKindFindings ! 1) = ContentOther ''url''
   \<and> Content (otherKindFindings ! 1) = HostPtr ''host-9''
   \<and> (\<exists>secs sec. (remapSection Key otherKindFindings :: unit error + _) = Inr secs
         \<and> {#s \<in># secs. sectionHash Key s = Some ''src''#} = {#sec#}
         \<and> OriginAttr sec = Some (exampleAttr ''src'')
         \<and> Hosts sec = [''host-1''] \<and> Users sec = [] \<and> Binaries sec = [])
   \<and> (\<exists>secs sec. (remapSection Key otherKindFindings :: unit error + _) = Inr secs
         \<and> {#s \<in># secs. sectionHash Key s = Some ''dst''#} = {#sec#}
         \<and> OriginAttr sec = Some (exampleAttr ''dst'')
         \<and> Hosts sec = [] \<and> Users sec = [] \<and> Binaries sec = [])"
proof -
  have wt: "\<forall>f\<in>set otherKindFindings. kindMatches f"
    by (simp add: otherKindFindings_def kindMatches_def)
  have m1: "otherKindFindings ! 1 \<in> set otherKindFindings"
    and m2: "otherKindFindings ! 2 \<in> set otherKindFindings"
    by (simp_all add: otherKindFindings_def)
  have o1: "InspectReport.Type (otherKindFindings ! 1) = ContentOther ''url''"
    and o2: "InspectReport.Type (otherKindFindings ! 2) = ContentOther ''url''"
    and c1: "Content (otherKindFindings ! 1) = HostPtr ''host-9''"
    by (simp_all add: otherKindFindings_def)
  have h1: "Key (Attribute (otherKindFindings ! 1)) = ''src''"
    and h2: "Key (Attribute (otherKindFindings ! 2)) = ''dst''"
    by (simp_all add: otherKindFindings_def exampleAttr_def)
  have src: "map_option Attribute (find (\<lambda>f. Key (Attribute f) = ''src'') otherKindFindings)
               = Some (exampleAttr ''src'')"
    "hostsOf (findingsOf Key ''src'' otherKindFindings) = [''host-1'']"
    "usersOf (findingsOf Key ''src'' otherKindFindings) = []"
    "binariesOf (findingsOf Key ''src'' otherKindFindings) = []"
    by (simp_all add: otherKindFindings_def exampleAttr_def findingsOf_def hostsOf_def
        usersOf_def binariesOf_def)
  have dst: "map_option Attribute (find (\<lambda>f. Key (Attribute f) = ''dst'') otherKindFindings)
               = Some (exampleAttr ''dst'')"
    "hostsOf (findingsOf Key ''dst'' otherKindFindings) = []"
    "usersOf (findingsOf Key ''dst'' otherKindFindings) = []"
    "binariesOf (findingsOf Key ''dst'' otherKindFindings) = []"
    by (simp_all add: otherKindFindings_def exampleAttr_def findingsOf_def hostsOf_def
        usersOf_def binariesOf_def)
  from remapSection_other_kind[OF wt m1 o1, where Hash = Key and payload = "OtherValue []" and ?'e = unit]
  obtain secs1 sec1 where
    "(remapSection Key otherKindFindings :: unit error + _) = Inr secs1"
    "{#s \<in># secs1. sectionHash Key s = Some ''src''#} = {#sec1#}"
    "OriginAttr sec1 = Some (exampleAttr ''src'')"
    "Hosts sec1 = [''host-1'']" "Users sec1 = []" "Binaries sec1 = []"
    unfolding h1 src by blast
  moreover
  from remapSection_other_kind[OF wt m2 o2, where Hash = Key and payload = "OtherValue []" and ?'e = unit]
  obtain secs2 sec2 where
    "(remapSection Key otherKindFindings :: unit error + _) = Inr secs2"
    "{#s \<in># secs2. sectionHash Key s = Some ''dst''#} = {#sec2#}"
    "OriginAttr sec2 = Some (exampleAttr ''dst'')"
    "Hosts sec2 = []" "Users sec2 = []" "Binaries sec2 = []"
    unfolding h2 dst by blast
  ultimately show ?thesis using o1 c1 by blast
qed

section \<open>Properties of the attribute cache\<close>

lemma newAttributeCache_fields:
  "PKey (newAttributeCache Hash x reportID attr now) = toAttributeCacheKey reportID"
  "SKey (newAttributeCache Hash x reportID attr now) = Hash attr"
  "ExpiresAt (newAttributeCache Hash x reportID attr now) = Unix (now + ttl x)"
  "AttributeCache.Timestamp (newAttributeCache Hash x reportID attr now) =
     (case Attribute.Timestamp attr of None \<Rightarrow> now | Some t \<Rightarrow> t)"
  "AttrKey (newAttributeCache Hash x reportID attr now) = Key attr"
  "AttrType (newAttributeCache Hash x reportID attr now) = Attribute.Type attr"
  "AttrValue (newAttributeCache Hash x reportID attr now) = Value attr"
  "AttrContext (newAttributeCache Hash x reportID attr now) = Context attr"
  by (simp_all add: newAttributeCache_def Add_def Let_def split: option.splits)

text \<open>
  C4. Whatever the repository: \<^verbatim>\<open>PutAttributeCache\<close> returns \<^verbatim>\<open>(true, nil)\<close> exactly when
  the repository's conditional create returns no error; it returns \<^verbatim>\<open>(false, nil)\<close>
  exactly when the create returns an error that the repository takes for a conditional-check
  failure; it returns an error exactly when the create returns any other error. The state
  it leaves is the one that the create left.
\<close>

theorem PutAttributeCache_outcomes:
  "(fst (PutAttributeCache Hash x reportID attr now s) = (True, None)
      \<longleftrightarrow> fst (repoPutAttributeCache (repo x) (newAttributeCache Hash x reportID attr now) now s)
            = None)
   \<and> (fst (PutAttributeCache Hash x reportID attr now s) = (False, None)
      \<longleftrightarrow> (\<exists>err. fst (repoPutAttributeCache (repo x) (newAttributeCache Hash x reportID attr now) now s)
                   = Some err
                 \<and> repoIsConditionalCheckErr (repo x) err))
   \<and> ((\<exists>e. snd (fst (PutAttributeCache Hash x reportID attr now s)) = Some e)
      \<longleftrightarrow> (\<exists>err. fst (repoPutAttributeCache (repo x) (newAttributeCache Hash x reportID attr now) now s)
                   = Some err
                 \<and> \<not> repoIsConditionalCheckErr (repo x) err))
   \<and> snd (PutAttributeCache Hash x reportID attr now s)
       = snd (repoPutAttributeCache (repo x) (newAttributeCache Hash x reportID attr now) now s)"
  by (auto simp: PutAttributeCache_def Let_def split: prod.splits option.splits)

theorem PutAttributeCache_outcomes_witness:
  "PutAttributeCache Key exampleService ''r1'' (exampleAttr ''src'') 2000000000 cachedStore
     = ((False, None), cachedStore)
   \<and> fst (PutAttributeCache Key exampleService ''r1'' (exampleAttr ''src'') 2000000000 emptyStore)
     = (True, None)
   \<and> PutAttributeCache Key exampleService ''r1'' (exampleAttr ''src'') 2000000000 faultyStore
     = ((False, Some (Wrap (Ext (Fault ''throttled'')) ''Fail to put attr cache'')), faultyStore)"
  using PutAttributeCache_outcomes[of Key exampleService "''r1''" "exampleAttr ''src''"
      2000000000 cachedStore]
  by (simp add: PutAttributeCache_def newAttributeCache_def toAttributeCacheKey_def
      store_eval time_eval example_eval faultyStore_def)



subsection \<open>On the store with conditional create\<close>

lemma find_append_if:
  "find P (xs @ ys) = (case find P xs of None \<Rightarrow> find P ys | Some x \<Rightarrow> Some x)"
  by (induction xs) auto

lemma find_filter_not: "find P (filter (\<lambda>y. \<not> P y) xs) = None"
  by (induction xs) auto

lemma conditionalCreate_live:
  assumes "liveAt (PKey r) (SKey r) now rs"
  shows "conditionalCreate r now rs = (Some ConditionalCheckFailed, rs)"
  using assms by (auto simp: liveAt_def conditionalCreate_def split: option.splits)

lemma conditionalCreate_free:
  assumes "\<not> liveAt (PKey r) (SKey r) now rs"
  shows "\<exists>rs'. conditionalCreate r now rs = (None, rs')
           \<and> find (sameKey (PKey r) (SKey r)) rs' = Some r"
proof -
  have self: "sameKey (PKey r) (SKey r) r" by (simp add: sameKey_def)
  show ?thesis
    using assms self
    by (auto simp: liveAt_def conditionalCreate_def find_append_if find_filter_not
        split: option.splits)
qed


lemma PutAttributeCache_store_new:
  assumes "repo x = storeRepo" "fault s = None"
    and "\<not> liveAt (toAttributeCacheKey reportID) (Hash attr) now (attributeCaches s)"
  shows "\<exists>s'. PutAttributeCache Hash x reportID attr now s = ((True, None), s')
          \<and> fault s' = None
          \<and> find (sameKey (toAttributeCacheKey reportID) (Hash attr)) (attributeCaches s')
              = Some (newAttributeCache Hash x reportID attr now)"
proof -
  let ?c = "newAttributeCache Hash x reportID attr now"
  have "\<not> liveAt (PKey ?c) (SKey ?c) now (attributeCaches s)"
    using assms(3) by (simp add: newAttributeCache_fields)
  from conditionalCreate_free[OF this] obtain rs' where
    c: "conditionalCreate ?c now (attributeCaches s) = (None, rs')"
    and f: "find (sameKey (toAttributeCacheKey reportID) (Hash attr)) rs' = Some ?c"
    by (auto simp: newAttributeCache_fields)
  have "PutAttributeCache Hash x reportID attr now s = ((True, None), s\<lparr>attributeCaches := rs'\<rparr>)"
    using assms(1,2) c
    by (simp add: PutAttributeCache_def storeRepo_def storePutAttributeCache_def)
  then show ?thesis using f assms(2) by simp
qed


text \<open>
  On the store, an attribute that was cached is read back with the timestamp of C9 for as
  long as its record is in the store.
\<close>

lemma attribute_cache_read_back:
  assumes "repo x = storeRepo" "fault s = None"
    and "\<not> liveAt (toAttributeCacheKey reportID) (Hash attr) now (attributeCaches s)"
  shows "\<exists>s' attrs. PutAttributeCache Hash x reportID attr now s = ((True, None), s')
           \<and> FetchAttributeCache x reportID s' = Inr attrs
           \<and> attr\<lparr>Attribute.Timestamp :=
                    Some (case Attribute.Timestamp attr of None \<Rightarrow> now | Some t \<Rightarrow> t)\<rparr>
                \<in> set attrs"
proof -
  let ?c = "newAttributeCache Hash x reportID attr now"
  from PutAttributeCache_store_new[where Hash = Hash and attr = attr, OF assms] obtain s' where
    p: "PutAttributeCache Hash x reportID attr now s = ((True, None), s')"
    and f: "fault s' = None"
    and c: "find (sameKey (toAttributeCacheKey reportID) (Hash attr)) (attributeCaches s') = Some ?c"
    by blast
  let ?f = "\<lambda>cache. \<lparr>Attribute.Type = AttrType cache, Key = AttrKey cache,
      Value = AttrValue cache, Context = AttrContext cache,
      Timestamp = Some (AttributeCache.Timestamp cache)\<rparr>"
  let ?cs = "filter (\<lambda>c. PKey c = toAttributeCacheKey reportID) (attributeCaches s')"
  from c have "?c \<in> set (attributeCaches s')"
    by (auto simp: find_Some_iff)
  then have "?c \<in> set ?cs"
    by (simp add: newAttributeCache_fields)
  then have "?f ?c \<in> set (map ?f ?cs)"
    by (simp only: set_map) (rule imageI)
  moreover have "?f ?c =
      attr\<lparr>Attribute.Timestamp :=
             Some (case Attribute.Timestamp attr of None \<Rightarrow> now | Some t \<Rightarrow> t)\<rparr>"
    by (cases attr) (simp add: newAttributeCache_fields split: option.splits)
  moreover have "FetchAttributeCache x reportID s' = Inr (map ?f ?cs)"
    using f assms(1)
    by (simp add: FetchAttributeCache_def storeRepo_def storeGetAttributeCaches_def)
  ultimately show ?thesis using p by auto
qed




section \<open>Properties of report assignment\<close>

lemma newAlertEntry_fields:
  "PKey (newAlertEntry AlertID x a now rid) = ''alertmap/'' @ AlertID a"
  "SKey (newAlertEntry AlertID x a now rid) = ''Fixed''"
  "ExpiresAt (newAlertEntry AlertID x a now rid) = Unix (now + ttl x)"
  "RecordBase.CreatedAt (newAlertEntry AlertID x a now rid) = Unix now"
  "AlertEntry.ReportID (newAlertEntry AlertID x a now rid) = rid"
  by (simp_all add: newAlertEntry_def UTC_def Add_def)

text \<open>
  C10. Whatever the repository: when the conditional create returns no error,
  \<^verbatim>\<open>TakeReport\<close> returns the new report with \<open>CreatedAt\<close> the \<open>now\<close> of the call. When
  the create fails with a conditional-check failure and the entry is read back, it returns
  the entry's report with status More, no alerts, no sections, and for \<open>CreatedAt\<close> the
  entry's creation second as a time; for an entry that \<^verbatim>\<open>TakeReport\<close> made at \<open>now0\<close>
  this is \<open>now0\<close> without its fraction of a second.
\<close>

theorem TakeReport_CreatedAt:
  assumes "repoPutAlertEntry (repo x) (newAlertEntry AlertID x alert now rid) now s = (perr, s')"
  shows "(perr = None \<longrightarrow>
            (TakeReport AlertID x alert now rid s :: (_ + ('a, 'c) Report) \<times> _) =
              (Inr \<lparr>ID = rid, Status = StatusNew, CreatedAt = now, Alerts = [], Sections = []\<rparr>, s'))
       \<and> (\<forall>err existed. perr = Some err \<and> repoIsConditionalCheckErr (repo x) err
              \<and> repoGetAlertEntry (repo x) (''alertmap/'' @ AlertID alert) ''Fixed'' s' = Inr existed \<longrightarrow>
            (TakeReport AlertID x alert now rid s :: (_ + ('a, 'c) Report) \<times> _) =
              (Inr \<lparr>ID = AlertEntry.ReportID existed, Status = StatusMore,
                    CreatedAt = time_Unix (RecordBase.CreatedAt existed) 0,
                    Alerts = [], Sections = []\<rparr>, s'))
       \<and> time_Unix (RecordBase.CreatedAt (newAlertEntry AlertID0 x0 alert0 now0 rid0)) 0
            = now0 - now0 mod 1000000000"
proof -
  have "time_Unix (Unix now0) 0 = now0 - now0 mod 1000000000"
    by (simp add: time_Unix_def Unix_def minus_mod_eq_div_mult)
  then show ?thesis
    using assms
    by (auto simp: TakeReport_def newAlertEntry_fields Let_def)
qed

theorem TakeReport_CreatedAt_witness:
  "repoPutAlertEntry (repo exampleService)
      (newAlertEntry exampleAlertID exampleService exampleAlert 9100000000 ''id-2'')
      9100000000 entryStore = (Some ConditionalCheckFailed, entryStore)
   \<and> fst (TakeReport exampleAlertID exampleService exampleAlert 7300000000 ''id-1'' emptyStore
          :: (_ + (string \<times> string \<times> string, unit) Report) \<times> _)
     = Inr \<lparr>ID = ''id-1'', Status = StatusNew, CreatedAt = 7300000000, Alerts = [], Sections = []\<rparr>
   \<and> snd (TakeReport exampleAlertID exampleService exampleAlert 7300000000 ''id-1'' emptyStore
          :: (_ + (string \<times> string \<times> string, unit) Report) \<times> _)
     = entryStore
   \<and> (TakeReport exampleAlertID exampleService exampleAlert 9100000000 ''id-2'' entryStore
          :: (_ + (string \<times> string \<times> string, unit) Report) \<times> _)
     = (Inr \<lparr>ID = ''id-1'', Status = StatusMore, CreatedAt = 7000000000, Alerts = [],
             Sections = []\<rparr>, entryStore)"
proof -
  have h: "repoPutAlertEntry (repo exampleService)
      (newAlertEntry exampleAlertID exampleService exampleAlert 9100000000 ''id-2'')
      9100000000 entryStore = (Some ConditionalCheckFailed, entryStore)"
    by (simp add: newAlertEntry_def store_eval time_eval example_eval)
  from TakeReport_CreatedAt[OF h, where ?'c = unit] h
  show ?thesis
    by (simp add: TakeReport_def newAlertEntry_def store_eval time_eval example_eval)
qed

subsection \<open>On the store with conditional create\<close>

lemma TakeReport_store_new:
  assumes "repo x = storeRepo" "fault s = None"
    and "\<not> liveAt (''alertmap/'' @ AlertID a) ''Fixed'' now (alertEntries s)"
  shows "\<exists>s'. (TakeReport AlertID x a now rid s :: (_ + ('a, 'c) Report) \<times> _) =
            (Inr \<lparr>ID = rid, Status = StatusNew, CreatedAt = now, Alerts = [], Sections = []\<rparr>, s')
          \<and> fault s' = None
          \<and> find (sameKey (''alertmap/'' @ AlertID a) ''Fixed'') (alertEntries s')
              = Some (newAlertEntry AlertID x a now rid)"
proof -
  let ?e = "newAlertEntry AlertID x a now rid"
  have "\<not> liveAt (PKey ?e) (SKey ?e) now (alertEntries s)"
    using assms(3) by (simp add: newAlertEntry_fields)
  from conditionalCreate_free[OF this] obtain rs' where
    c: "conditionalCreate ?e now (alertEntries s) = (None, rs')"
    and f: "find (sameKey (''alertmap/'' @ AlertID a) ''Fixed'') rs' = Some ?e"
    by (auto simp: newAlertEntry_fields)
  have "(TakeReport AlertID x a now rid s :: (_ + ('a, 'c) Report) \<times> _) =
            (Inr \<lparr>ID = rid, Status = StatusNew, CreatedAt = now, Alerts = [], Sections = []\<rparr>,
             s\<lparr>alertEntries := rs'\<rparr>)"
    using assms(1,2) c
    by (simp add: TakeReport_def storeRepo_def storePutAlertEntry_def newAlertEntry_fields)
  then show ?thesis using f assms(2) by simp
qed

lemma TakeReport_store_dup:
  assumes "repo x = storeRepo" "fault s = None"
    and "find (sameKey (''alertmap/'' @ AlertID a) ''Fixed'') (alertEntries s) = Some e"
    and "Unix now \<le> ExpiresAt e"
  shows "(TakeReport AlertID x a now rid s :: (_ + ('a, 'c) Report) \<times> _) =
            (Inr \<lparr>ID = AlertEntry.ReportID e, Status = StatusMore,
                  CreatedAt = time_Unix (RecordBase.CreatedAt e) 0, Alerts = [], Sections = []\<rparr>, s)"
proof -
  let ?e = "newAlertEntry AlertID x a now rid"
  have "liveAt (PKey ?e) (SKey ?e) now (alertEntries s)"
    using assms(3,4) by (simp add: newAlertEntry_fields liveAt_def)
  from conditionalCreate_live[OF this]
  show ?thesis
    using assms(1,2,3)
    by (simp add: TakeReport_def storeRepo_def storePutAlertEntry_def storeGetAlertEntry_def
        newAlertEntry_fields)
qed

lemma TakeReport_store_later:
  assumes "repo x = storeRepo" "fault s = None"
    and "find (sameKey (''alertmap/'' @ k) ''Fixed'') (alertEntries s) = Some e"
    and "\<forall>c\<in>set later. AlertID (fst c) = k \<and> Unix (fst (snd c)) \<le> ExpiresAt e"
  shows "runCalls (\<lambda>c. (TakeReport AlertID x (fst c) (fst (snd c)) (snd (snd c))
                           :: Store \<Rightarrow> (_ + ('a, 'c) Report) \<times> _)) later s =
           (replicate (length later)
              (Inr \<lparr>ID = AlertEntry.ReportID e, Status = StatusMore,
                    CreatedAt = time_Unix (RecordBase.CreatedAt e) 0, Alerts = [], Sections = []\<rparr>), s)"
  using assms(4)
proof (induction later)
  case Nil
  then show ?case by simp
next
  case (Cons c later)
  from Cons.prems have k: "AlertID (fst c) = k" and t: "Unix (fst (snd c)) \<le> ExpiresAt e"
    and rest: "\<forall>c\<in>set later. AlertID (fst c) = k \<and> Unix (fst (snd c)) \<le> ExpiresAt e"
    by auto
  have "find (sameKey (''alertmap/'' @ AlertID (fst c)) ''Fixed'') (alertEntries s) = Some e"
    using assms(3) k by simp
  from TakeReport_store_dup[where AlertID = AlertID and a = "fst c" and ?'c = 'c,
      OF assms(1,2) this t] Cons.IH[OF rest]
  show ?case by simp
qed

text \<open>
  C1. On the store in working order, with no unexpired entry for the alert's AlertID: of
  the calls of \<^verbatim>\<open>TakeReport\<close> made one after the other, the first for the alert at
  \<open>now\<close> and every later one for an alert of the same AlertID at a time within the window
  (up to the second \<open>now + ttl\<close> at which the entry expires), the first returns the
  report identifier generated in it with status New, and every later one returns the same
  identifier with status More.
\<close>

theorem TakeReport_dedup:
  assumes "repo x = storeRepo" "fault s = None"
    and "\<not> liveAt (''alertmap/'' @ AlertID a) ''Fixed'' now (alertEntries s)"
    and "\<forall>c\<in>set later. AlertID (fst c) = AlertID a \<and> Unix (fst (snd c)) \<le> Unix (now + ttl x)"
    and "runCalls (\<lambda>c. (TakeReport AlertID x (fst c) (fst (snd c)) (snd (snd c))
                           :: Store \<Rightarrow> (_ + ('a, 'c) Report) \<times> _))
           ((a, now, rid) # later) s = (results, s')"
  shows "map (map_sum id (\<lambda>r. (ID r, Status r))) results =
           Inr (rid, StatusNew) # replicate (length later) (Inr (rid, StatusMore))"
proof -
  from TakeReport_store_new[where AlertID = AlertID and a = a and rid = rid and ?'c = 'c,
      OF assms(1,2,3)]
  obtain s1 where
    first: "(TakeReport AlertID x a now rid s :: (_ + ('a, 'c) Report) \<times> _) =
            (Inr \<lparr>ID = rid, Status = StatusNew, CreatedAt = now, Alerts = [], Sections = []\<rparr>, s1)"
    and f1: "fault s1 = None"
    and e1: "find (sameKey (''alertmap/'' @ AlertID a) ''Fixed'') (alertEntries s1)
              = Some (newAlertEntry AlertID x a now rid)"
    by blast
  have w: "\<forall>c\<in>set later. AlertID (fst c) = AlertID a
             \<and> Unix (fst (snd c)) \<le> ExpiresAt (newAlertEntry AlertID x a now rid)"
    using assms(4) by (simp add: newAlertEntry_fields)
  from TakeReport_store_later[OF assms(1) f1 e1 w, where ?'c = 'c] first assms(5)
  show ?thesis by (auto simp: newAlertEntry_fields)
qed

theorem TakeReport_dedup_witness:
  "map (map_sum id (\<lambda>r. (ID r, Status r)))
     (fst (runCalls (\<lambda>c. (TakeReport exampleAlertID exampleService (fst c) (fst (snd c)) (snd (snd c))
                       :: Store \<Rightarrow> (StoreErr error + (string \<times> string \<times> string, unit) Report) \<times> Store))
        [(exampleAlert, 7300000000, ''id-1''), (exampleAlert, 9100000000, ''id-2''),
         (exampleAlert, 17999999999, ''id-3'')] emptyStore))
   = [Inr (''id-1'', StatusNew), Inr (''id-1'', StatusMore), Inr (''id-1'', StatusMore)]"
proof -
  let ?f = "\<lambda>c. (TakeReport exampleAlertID exampleService (fst c) (fst (snd c)) (snd (snd c))
                       :: Store \<Rightarrow> (StoreErr error + (string \<times> string \<times> string, unit) Report) \<times> Store)"
  let ?later = "[(exampleAlert, 9100000000 :: int, ''id-2''), (exampleAlert, 17999999999, ''id-3'')]"
  have r: "repo exampleService = storeRepo" and f: "fault emptyStore = None"
    by (simp_all add: exampleService_def emptyStore_def)
  have h: "\<not> liveAt (''alertmap/'' @ exampleAlertID exampleAlert) ''Fixed'' 7300000000
             (alertEntries emptyStore)"
    by (simp add: liveAt_def emptyStore_def)
  have w: "\<forall>c\<in>set ?later. exampleAlertID (fst c) = exampleAlertID exampleAlert
             \<and> Unix (fst (snd c)) \<le> Unix (7300000000 + ttl exampleService)"
    by (simp add: Unix_def exampleService_def)
  have run: "runCalls ?f ((exampleAlert, 7300000000, ''id-1'') # ?later) emptyStore
           = (fst (runCalls ?f ((exampleAlert, 7300000000, ''id-1'') # ?later) emptyStore),
              snd (runCalls ?f ((exampleAlert, 7300000000, ''id-1'') # ?later) emptyStore))"
    by (rule prod.collapse[symmetric])
  from TakeReport_dedup[where AlertID = exampleAlertID and a = exampleAlert, OF r f h w run]
  show ?thesis by simp
qed




end
